theory Spec2Isabelle
  imports Complex_Main
begin

section \<open>Python values and exceptions\<close>

text \<open>
  The two scripts \<^verbatim>\<open>fill_data.py\<close> and \<^verbatim>\<open>test_operations.py\<close> are embedded as
  HOL functions. Durations and byte sizes are Python floats; they are modelled as exact
  reals. Every division the code makes on a byte count is by 1024.0 (exact on binary
  floats), and the percentile indices \<^verbatim>\<open>int(n * 0.95)\<close>, \<^verbatim>\<open>int(n * 0.99)\<close> agree with
  the exact floor for every list length a run can produce, so the properties below do
  not depend on rounding. Random choices and clock readings are parameters of the model.
\<close>

datatype error =
    StatisticsError   \<comment> \<open>\<^verbatim>\<open>statistics.mean\<close>, \<^verbatim>\<open>median\<close>, \<^verbatim>\<open>stdev\<close> on too little data\<close>
  | EmptySequence     \<comment> \<open>the \<^verbatim>\<open>ValueError\<close> of \<^verbatim>\<open>min([])\<close> and \<^verbatim>\<open>max([])\<close>\<close>
  | EmptyRange        \<comment> \<open>the \<^verbatim>\<open>ValueError\<close> of \<^verbatim>\<open>random.randint(1, b)\<close> with \<^verbatim>\<open>b < 1\<close>\<close>
  | KeyError          \<comment> \<open>a dictionary lookup of a missing key\<close>

definition and_then :: "error + 'a \<Rightarrow> ('a \<Rightarrow> error + 'b) \<Rightarrow> error + 'b" where
  "and_then r f = (case r of Inl e \<Rightarrow> Inl e | Inr x \<Rightarrow> f x)"

subsection \<open>The statistics module and the built-ins min, max\<close>

definition mean :: "real list \<Rightarrow> error + real" where
  "mean xs = (if xs = [] then Inl StatisticsError
              else Inr (sum_list xs / real (length xs)))"

definition min_of :: "real list \<Rightarrow> error + real" where
  "min_of xs = (case xs of [] \<Rightarrow> Inl EmptySequence | x # ys \<Rightarrow> Inr (fold min ys x))"

definition max_of :: "real list \<Rightarrow> error + real" where
  "max_of xs = (case xs of [] \<Rightarrow> Inl EmptySequence | x # ys \<Rightarrow> Inr (fold max ys x))"

text \<open>
  \<^verbatim>\<open>statistics.median\<close>: sort; raise on no data; the middle element when the length is
  odd, the arithmetic mean of the two middle elements when it is even.
\<close>

definition median :: "real list \<Rightarrow> error + real" where
  "median xs =
     (let data = sort xs; n = length data
      in if n = 0 then Inl StatisticsError
         else if n mod 2 = 1 then Inr (data ! (n div 2))
         else Inr ((data ! (n div 2 - 1) + data ! (n div 2)) / 2))"

text \<open>\<^verbatim>\<open>statistics.stdev\<close>: the sample standard deviation, at least two data points.\<close>

definition stdev :: "real list \<Rightarrow> error + real" where
  "stdev xs =
     (let n = length xs
      in if n < 2 then Inl StatisticsError
         else
           let m = sum_list xs / real n;
               ss = sum_list (map (\<lambda>x. (x - m) ^ 2) xs)
           in Inr (sqrt (ss / real (n - 1))))"

section \<open>test\_operations.py: statistics of a sample list\<close>

record extended_stats =
  p95_time :: real
  p99_time :: real
  stddev :: real
  cv_percent :: real

text \<open>
  \<^verbatim>\<open>calculate_extended_stats\<close> returns the empty dictionary (here \<open>None\<close>) on an empty
  list, and the four extra keys otherwise.
\<close>

definition calculate_extended_stats :: "real list \<Rightarrow> error + extended_stats option" where
  "calculate_extended_stats ts =
     (if ts = [] \<or> length ts = 0 then Inr None
      else
        let sorted_times = sort ts;
            n = length sorted_times;
            p95_idx = nat \<lfloor>real n * 0.95\<rfloor>;
            p99_idx = nat \<lfloor>real n * 0.99\<rfloor>;
            p95 = (if p95_idx < n then sorted_times ! p95_idx else last sorted_times);
            p99 = (if p99_idx < n then sorted_times ! p99_idx else last sorted_times)
        in and_then (if length ts > 1 then stdev ts else Inr 0) (\<lambda>sd.
           and_then (mean ts) (\<lambda>mean_time.
             Inr (Some \<lparr>p95_time = p95, p99_time = p99, stddev = sd,
                        cv_percent = (if mean_time > 0 then sd / mean_time * 100 else 0)\<rparr>))))"

record op_stats =
  total_time :: real
  avg_time :: real
  min_time :: real
  max_time :: real
  median_time :: real
  ops_per_sec :: real
  extended :: "extended_stats option"

text \<open>
  Each of the four benchmark functions ends with the same dictionary literal over its
  argument \<^verbatim>\<open>count\<close> and its list \<^verbatim>\<open>times\<close> (here \<open>ts\<close>), followed by
  \<^verbatim>\<open>base_stats.update(calculate_extended_stats(times))\<close>. The block is written once here;
  the entries are evaluated in the order of the literal.
\<close>

definition base_stats :: "nat \<Rightarrow> real list \<Rightarrow> error + op_stats" where
  "base_stats count ts =
     and_then (mean ts) (\<lambda>avg.
     and_then (min_of ts) (\<lambda>mn.
     and_then (max_of ts) (\<lambda>mx.
     and_then (median ts) (\<lambda>med.
     and_then (calculate_extended_stats ts) (\<lambda>ext.
       Inr \<lparr>total_time = sum_list ts, avg_time = avg, min_time = mn, max_time = mx,
            median_time = med,
            ops_per_sec = (if sum_list ts > 0 then real count / sum_list ts else 0),
            extended = ext\<rparr>)))))"

section \<open>test\_operations.py: size formatting\<close>

text \<open>
  The unit labels of the source are the Russian abbreviations; a \<open>string\<close> holds bytes,
  so each label is its UTF-8 encoding.
\<close>

definition unit_B :: string where "unit_B = [CHR 0xD0, CHR 0x91]"
definition unit_KB :: string where "unit_KB = [CHR 0xD0, CHR 0x9A, CHR 0xD0, CHR 0x91]"
definition unit_MB :: string where "unit_MB = [CHR 0xD0, CHR 0x9C, CHR 0xD0, CHR 0x91]"
definition unit_GB :: string where "unit_GB = [CHR 0xD0, CHR 0x93, CHR 0xD0, CHR 0x91]"
definition unit_TB :: string where "unit_TB = [CHR 0xD0, CHR 0xA2, CHR 0xD0, CHR 0x91]"
definition unit_PB :: string where "unit_PB = [CHR 0xD0, CHR 0x9F, CHR 0xD0, CHR 0x91]"

fun decimal :: "nat \<Rightarrow> string" where
  "decimal n = (if n < 10 then [''0123456789'' ! n]
                else decimal (n div 10) @ [''0123456789'' ! (n mod 10)])"

declare decimal.simps [simp del]

text \<open>Rounding to the nearest integer, a tie going to the even neighbour.\<close>

definition round_half_even :: "real \<Rightarrow> int" where
  "round_half_even x =
     (let f = \<lfloor>x\<rfloor>; d = x - of_int f
      in if d < 1 / 2 then f else if 1 / 2 < d then f + 1
         else if even f then f else f + 1)"

text \<open>The format specification \<^verbatim>\<open>:.2f\<close>: sign, integer part, point, two decimals.\<close>

definition format_2f :: "real \<Rightarrow> string" where
  "format_2f x =
     (let c = nat (round_half_even (\<bar>x\<bar> * 100))
      in (if x < 0 then ''-'' else '''') @ decimal (c div 100) @ ''.''
         @ [''0123456789'' ! (c mod 100 div 10), ''0123456789'' ! (c mod 10)])"

fun format_size_loop :: "real \<Rightarrow> string list \<Rightarrow> string" where
  "format_size_loop bytes_size [] = format_2f bytes_size @ '' '' @ unit_PB"
| "format_size_loop bytes_size (unit # units) =
     (if bytes_size < 1024 then format_2f bytes_size @ '' '' @ unit
      else format_size_loop (bytes_size / 1024) units)"

definition format_size :: "real \<Rightarrow> string" where
  "format_size bytes_size =
     format_size_loop bytes_size [unit_B, unit_KB, unit_MB, unit_GB, unit_TB]"

section \<open>The tables\<close>

text \<open>
  A table of the schema \<^verbatim>\<open>(id SERIAL PRIMARY KEY, value ...)\<close>: its rows in insertion
  order and the next value of the sequence behind \<^verbatim>\<open>id\<close>. Engine errors
  (\<^verbatim>\<open>psycopg2.Error\<close>) are outside the model.
\<close>

record table =
  rows :: "(int \<times> string) list"
  next_id :: int

definition insert_row :: "table \<Rightarrow> string \<Rightarrow> table" where
  \<comment> \<open>\<^verbatim>\<open>INSERT INTO t (value) VALUES (%s)\<close>\<close>
  "insert_row t v = t\<lparr>rows := rows t @ [(next_id t, v)], next_id := next_id t + 1\<rparr>"

definition update_row :: "table \<Rightarrow> int \<Rightarrow> string \<Rightarrow> table" where
  \<comment> \<open>\<^verbatim>\<open>UPDATE t SET value = %s WHERE id = %s\<close>\<close>
  "update_row t i v = t\<lparr>rows := map (\<lambda>r. if fst r = i then (i, v) else r) (rows t)\<rparr>"

definition delete_row :: "table \<Rightarrow> int \<Rightarrow> table" where
  \<comment> \<open>\<^verbatim>\<open>DELETE FROM t WHERE id = %s\<close>\<close>
  "delete_row t i = t\<lparr>rows := filter (\<lambda>r. fst r \<noteq> i) (rows t)\<rparr>"

definition truncate_restart :: "table \<Rightarrow> table" where
  \<comment> \<open>\<^verbatim>\<open>TRUNCATE TABLE t RESTART IDENTITY\<close>\<close>
  "truncate_restart t = t\<lparr>rows := [], next_id := 1\<rparr>"

definition select_max_id :: "table \<Rightarrow> int option" where
  \<comment> \<open>\<^verbatim>\<open>SELECT MAX(id) FROM t\<close>: NULL on an empty table\<close>
  "select_max_id t =
     (case map fst (rows t) of [] \<Rightarrow> None | i # is \<Rightarrow> Some (fold max is i))"

definition get_table_count :: "table \<Rightarrow> int" where
  \<comment> \<open>\<^verbatim>\<open>SELECT COUNT(*) FROM t\<close>\<close>
  "get_table_count t = int (length (rows t))"

section \<open>test\_operations.py: the benchmark\<close>

definition OPERATIONS_COUNT :: nat where
  "OPERATIONS_COUNT = 1000"

record table_config =
  min_len :: nat
  max_len :: nat
  col_type :: string
  indexed :: bool

definition get_table_config :: "int \<Rightarrow> error + table_config" where
  "get_table_config table_num =
     (if table_num = 1 then
        Inr \<lparr>min_len = 1, max_len = 100, col_type = ''varchar'', indexed = True\<rparr>
      else if table_num = 2 then
        Inr \<lparr>min_len = 1, max_len = 100, col_type = ''varchar'', indexed = False\<rparr>
      else if table_num = 3 then
        Inr \<lparr>min_len = 500, max_len = 1000, col_type = ''varchar(1000)'', indexed = False\<rparr>
      else if table_num = 4 then
        Inr \<lparr>min_len = 9000, max_len = 10000, col_type = ''varchar(10000)'', indexed = False\<rparr>
      else if table_num = 5 then
        Inr \<lparr>min_len = 500, max_len = 1000, col_type = ''varchar(1000)'', indexed = True\<rparr>
      else if table_num = 6 then
        Inr \<lparr>min_len = 9000, max_len = 10000, col_type = ''text'', indexed = False\<rparr>
      else if table_num = 7 then
        Inr \<lparr>min_len = 500, max_len = 1000, col_type = ''text'', indexed = False\<rparr>
      else Inl KeyError)"

definition get_max_id :: "table \<Rightarrow> int" where
  \<comment> \<open>\<^verbatim>\<open>return result if result else 0\<close>\<close>
  "get_max_id t =
     (case select_max_id t of None \<Rightarrow> 0 | Some result \<Rightarrow> if result \<noteq> 0 then result else 0)"

record table_stats =
  total_size :: int
  table_size :: int
  indexes_size :: int
  record_count :: int
  avg_record_size :: real

text \<open>
  The three sizes are what the engine reports for the table (\<open>pg\<close>); the row count is
  counted, and the average record size derived.
\<close>

definition get_table_stats :: "int \<times> int \<times> int \<Rightarrow> table \<Rightarrow> table_stats" where
  "get_table_stats pg t =
     (let total = (if fst pg \<noteq> 0 then fst pg else 0);
          tsize = (if fst (snd pg) \<noteq> 0 then fst (snd pg) else 0);
          isize = (if snd (snd pg) \<noteq> 0 then snd (snd pg) else 0);
          cnt = (if get_table_count t \<noteq> 0 then get_table_count t else 0)
      in \<lparr>total_size = total, table_size = tsize, indexes_size = isize, record_count = cnt,
          avg_record_size = (if cnt > 0 then real_of_int tsize / real_of_int cnt else 0)\<rparr>)"

text \<open>
  The loops. \<open>gen i\<close> is the string \<^verbatim>\<open>generate_random_string\<close> returns in iteration
  \<open>i\<close>, \<open>pick i\<close> the id \<^verbatim>\<open>random.randint(1, max_id)\<close> returns there, and \<open>dur i\<close> the
  difference of the two \<^verbatim>\<open>time.perf_counter()\<close> readings around the statement. Each loop
  gives the list \<^verbatim>\<open>times\<close> it has built and the table it leaves.
\<close>

definition insert_loop :: "(nat \<Rightarrow> string) \<Rightarrow> (nat \<Rightarrow> real) \<Rightarrow> table \<Rightarrow> nat \<Rightarrow> real list \<times> table" where
  "insert_loop gen dur t count =
     (map dur [0..<count], fold (\<lambda>i t. insert_row t (gen i)) [0..<count] t)"

definition test_insert ::
  "(nat \<Rightarrow> string) \<Rightarrow> (nat \<Rightarrow> real) \<Rightarrow> table \<Rightarrow> nat \<Rightarrow> (error + op_stats) \<times> table" where
  "test_insert gen dur t count =
     (let (ts, t') = insert_loop gen dur t count in (base_stats count ts, t'))"

text \<open>
  \<^verbatim>\<open>random.randint(1, max_id)\<close> raises in the first iteration when \<^verbatim>\<open>max_id < 1\<close>.
  A SELECT leaves the table as it is.
\<close>

definition select_loop :: "(nat \<Rightarrow> real) \<Rightarrow> int \<Rightarrow> nat \<Rightarrow> error + real list" where
  "select_loop dur max_id count =
     (if 0 < count \<and> max_id < 1 then Inl EmptyRange else Inr (map dur [0..<count]))"

definition test_select_by_id :: "(nat \<Rightarrow> real) \<Rightarrow> int \<Rightarrow> nat \<Rightarrow> error + op_stats" where
  "test_select_by_id dur max_id count =
     and_then (select_loop dur max_id count) (base_stats count)"

definition update_loop ::
  "(nat \<Rightarrow> int) \<Rightarrow> (nat \<Rightarrow> string) \<Rightarrow> (nat \<Rightarrow> real) \<Rightarrow> table \<Rightarrow> int \<Rightarrow> nat
     \<Rightarrow> (error + real list) \<times> table" where
  "update_loop pick gen dur t max_id count =
     (if 0 < count \<and> max_id < 1 then (Inl EmptyRange, t)
      else (Inr (map dur [0..<count]),
            fold (\<lambda>i t. update_row t (pick i) (gen i)) [0..<count] t))"

definition test_update_by_id ::
  "(nat \<Rightarrow> int) \<Rightarrow> (nat \<Rightarrow> string) \<Rightarrow> (nat \<Rightarrow> real) \<Rightarrow> table \<Rightarrow> int \<Rightarrow> nat
     \<Rightarrow> (error + op_stats) \<times> table" where
  "test_update_by_id pick gen dur t max_id count =
     (let (r, t') = update_loop pick gen dur t max_id count
      in (and_then r (base_stats count), t'))"

text \<open>
  \<^verbatim>\<open>SELECT id FROM t ORDER BY RANDOM() LIMIT count\<close>: the engine draws a random key for
  every row (\<open>rnd\<close>, by id), orders the rows by it and returns at most \<open>count\<close> ids. The
  loop then runs once for every id returned.
\<close>

definition ids_to_delete :: "(int \<Rightarrow> real) \<Rightarrow> table \<Rightarrow> nat \<Rightarrow> int list" where
  "ids_to_delete rnd t count = map fst (take count (sort_key (\<lambda>r. rnd (fst r)) (rows t)))"

definition delete_loop :: "(int \<Rightarrow> real) \<Rightarrow> (nat \<Rightarrow> real) \<Rightarrow> table \<Rightarrow> nat \<Rightarrow> real list \<times> table" where
  "delete_loop rnd dur t count =
     (let ids = ids_to_delete rnd t count
      in (map dur [0..<length ids], fold (\<lambda>id_to_delete t. delete_row t id_to_delete) ids t))"

definition test_delete_by_id ::
  "(int \<Rightarrow> real) \<Rightarrow> (nat \<Rightarrow> real) \<Rightarrow> table \<Rightarrow> int \<Rightarrow> nat \<Rightarrow> (error + op_stats) \<times> table" where
  "test_delete_by_id rnd dur t max_id count =
     (let (ts, t') = delete_loop rnd dur t count in (base_stats count ts, t'))"

record table_result =
  res_config :: table_config
  res_record_count :: int
  res_stats :: table_stats
  res_insert :: op_stats
  res_select_by_id :: op_stats
  res_update_by_id :: op_stats
  res_delete_by_id :: op_stats

text \<open>What one pass over a table draws from the random source and reads off the clock.\<close>

record bench_env =
  ins_gen :: "nat \<Rightarrow> string"
  ins_dur :: "nat \<Rightarrow> real"
  sel_dur :: "nat \<Rightarrow> real"
  upd_pick :: "nat \<Rightarrow> int"
  upd_gen :: "nat \<Rightarrow> string"
  upd_dur :: "nat \<Rightarrow> real"
  del_rnd :: "int \<Rightarrow> real"
  del_dur :: "nat \<Rightarrow> real"

text \<open>
  After each loop \<^verbatim>\<open>test_table\<close> prints \<^verbatim>\<open>avg_time\<close>, \<^verbatim>\<open>p95_time\<close>, \<^verbatim>\<open>p99_time\<close>,
  \<^verbatim>\<open>stddev\<close>, \<^verbatim>\<open>cv_percent\<close> and \<^verbatim>\<open>ops_per_sec\<close> of the result; the lookups of the
  extended keys fail when \<^verbatim>\<open>calculate_extended_stats\<close> gave the empty dictionary. The
  text of the lines is not modelled.
\<close>

definition print_op_stats :: "op_stats \<Rightarrow> error + unit" where
  "print_op_stats s = (case extended s of None \<Rightarrow> Inl KeyError | Some _ \<Rightarrow> Inr ())"

definition printed :: "error + op_stats \<Rightarrow> error + op_stats" where
  "printed r = and_then r (\<lambda>s. and_then (print_op_stats s) (\<lambda>_. Inr s))"

text \<open>
  \<^verbatim>\<open>test_table\<close> on the table numbered \<open>table_num\<close>, whose state is \<open>t\<close>: the value
  returned (\<open>None\<close> for a skipped table) or the exception raised, and the table as the
  call leaves it.
\<close>

definition test_table ::
  "bench_env \<Rightarrow> int \<times> int \<times> int \<Rightarrow> table \<Rightarrow> int \<Rightarrow> (error + table_result option) \<times> table" where
  "test_table env pg t table_num =
     (case get_table_config table_num of
        Inl e \<Rightarrow> (Inl e, t)
      | Inr config \<Rightarrow>
         (let max_id = get_max_id t;
              stats = get_table_stats pg t
          in if max_id = 0 then (Inr None, t)
             else
              (let (r1, t1) = test_insert (ins_gen env) (ins_dur env) t OPERATIONS_COUNT
               in (case printed r1 of
                     Inl e \<Rightarrow> (Inl e, t1)
                   | Inr ins \<Rightarrow>
                      (let max_id' = get_max_id t1
                       in (case printed (test_select_by_id (sel_dur env) max_id' OPERATIONS_COUNT) of
                             Inl e \<Rightarrow> (Inl e, t1)
                           | Inr sel \<Rightarrow>
                              (let (r3, t3) =
                                     test_update_by_id (upd_pick env) (upd_gen env) (upd_dur env)
                                       t1 max_id' OPERATIONS_COUNT
                               in (case printed r3 of
                                     Inl e \<Rightarrow> (Inl e, t3)
                                   | Inr upd \<Rightarrow>
                                      (let (r4, t4) =
                                             test_delete_by_id (del_rnd env) (del_dur env)
                                               t3 max_id' OPERATIONS_COUNT
                                       in (case printed r4 of
                                             Inl e \<Rightarrow> (Inl e, t4)
                                           | Inr del \<Rightarrow>
                                              (Inr (Some \<lparr>res_config = config,
                                                          res_record_count = max_id,
                                                          res_stats = stats, res_insert = ins,
                                                          res_select_by_id = sel,
                                                          res_update_by_id = upd,
                                                          res_delete_by_id = del\<rparr>), t4)))))))))))"

section \<open>fill\_data.py: the bulk loader\<close>

definition RECORDS_COUNT :: int where
  "RECORDS_COUNT = 2000000"

definition BATCH_SIZE :: int where
  "BATCH_SIZE = 10000"

text \<open>
  What a call of \<^verbatim>\<open>fill_table\<close> does to the outside, in order: the statements it sends
  through the connection and the lines it gives to the logger.
\<close>

datatype sql =
    CountRows                  \<comment> \<open>\<^verbatim>\<open>SELECT COUNT(*) FROM t\<close>\<close>
  | TruncateRestart            \<comment> \<open>\<^verbatim>\<open>TRUNCATE TABLE t RESTART IDENTITY\<close>\<close>
  | InsertBatch "string list"  \<comment> \<open>\<^verbatim>\<open>execute_batch\<close> of one INSERT for every value\<close>
  | Commit

datatype log_line =
    LogSkipped int             \<comment> \<open>already filled, with the row count\<close>
  | LogStart                   \<comment> \<open>the four opening lines\<close>
  | LogResume int              \<comment> \<open>rows already there, filling goes on\<close>
  | LogProgress int real real  \<comment> \<open>\<^verbatim>\<open>total_inserted\<close>, percentage, rate\<close>
  | LogDone real real          \<comment> \<open>elapsed seconds, rate\<close>

datatype event = Sql sql | Log log_line

text \<open>
  The variables of the \<^verbatim>\<open>while\<close> loop. \<open>gen i\<close> is the \<open>i\<close>-th string drawn from
  \<^verbatim>\<open>generate_random_string\<close> in this call and \<open>now j\<close> the value of the \<open>j\<close>-th reading
  of \<^verbatim>\<open>time.time()\<close>, reading 0 being \<^verbatim>\<open>start_time\<close>.
\<close>

record fill_state =
  total_inserted :: int
  tab :: table
  events :: "event list"
  clock_reads :: nat
  generated :: nat

definition fill_step :: "(nat \<Rightarrow> string) \<Rightarrow> (nat \<Rightarrow> real) \<Rightarrow> int \<Rightarrow> fill_state \<Rightarrow> fill_state" where
  "fill_step gen now batch_size st =
     (let batch_count = min batch_size (RECORDS_COUNT - total_inserted st);
          batch = map (\<lambda>i. gen (generated st + i)) [0..<nat batch_count];
          tab' = fold (\<lambda>v t. insert_row t v) batch (tab st);
          total' = total_inserted st + batch_count;
          st' = st\<lparr>total_inserted := total', tab := tab',
                   events := events st @ [Sql (InsertBatch batch), Sql Commit],
                   generated := generated st + nat batch_count\<rparr>
      in if total' mod 100000 = 0 then
           let elapsed = now (clock_reads st') - now 0;
               rate = (if elapsed > 0 then real_of_int total' / elapsed else 0)
           in st'\<lparr>events := events st' @
                     [Log (LogProgress total'
                            (real_of_int (total' * 100) / real_of_int RECORDS_COUNT) rate)],
                  clock_reads := clock_reads st' + 1\<rparr>
         else st')"

text \<open>
  The loop ends only when the counter reaches the target; with a batch size that is not
  positive it never does, and the value is \<open>None\<close>.
\<close>

partial_function (option) fill_loop ::
  "(nat \<Rightarrow> string) \<Rightarrow> (nat \<Rightarrow> real) \<Rightarrow> int \<Rightarrow> fill_state \<Rightarrow> fill_state option" where
  "fill_loop gen now batch_size st =
     (if total_inserted st < RECORDS_COUNT
      then fill_loop gen now batch_size (fill_step gen now batch_size st)
      else Some st)"

record fill_result =
  elapsed_time :: real
  table_after :: table
  trace :: "event list"

text \<open>
  \<^verbatim>\<open>fill_table\<close> from its opening log lines to the \<^verbatim>\<open>while\<close> loop: the clock is read
  for \<^verbatim>\<open>start_time\<close>, the rows are counted, the counter starts at that count, and a
  table without rows is truncated.
\<close>

definition fill_start :: "bool \<Rightarrow> table \<Rightarrow> fill_state" where
  "fill_start skip_if_exists t =
     (let current_count = get_table_count t
      in \<lparr>total_inserted = (if current_count > 0 then current_count else 0),
          tab = (if current_count = 0 then truncate_restart t else t),
          events = (if skip_if_exists then [Sql CountRows] else [])
                   @ [Log LogStart, Sql CountRows]
                   @ (if current_count > 0 then [Log (LogResume current_count)] else [])
                   @ (if current_count = 0 then [Sql TruncateRestart, Sql Commit] else []),
          clock_reads = 1, generated = 0\<rparr>)"

definition fill_table ::
  "(nat \<Rightarrow> string) \<Rightarrow> (nat \<Rightarrow> real) \<Rightarrow> int \<Rightarrow> bool \<Rightarrow> table \<Rightarrow> fill_result option" where
  "fill_table gen now batch_size skip_if_exists t =
     (if skip_if_exists \<and> get_table_count t \<ge> RECORDS_COUNT then
        Some \<lparr>elapsed_time = 0, table_after = t,
              trace = [Sql CountRows, Log (LogSkipped (get_table_count t))]\<rparr>
      else
        case fill_loop gen now batch_size (fill_start skip_if_exists t) of
          None \<Rightarrow> None
        | Some st \<Rightarrow>
            let elapsed = now (clock_reads st) - now 0;
                rate = (if elapsed > 0 then real_of_int (total_inserted st) / elapsed else 0)
            in Some \<lparr>elapsed_time = elapsed, table_after = tab st,
                     trace = events st @ [Log (LogDone elapsed rate)]\<rparr>)"

text \<open>Readings of a trace.\<close>

definition batch_sizes :: "event list \<Rightarrow> nat list" where
  \<comment> \<open>the number of rows of every batch sent, in order\<close>
  "batch_sizes evs =
     concat (map (\<lambda>e. case e of Sql (InsertBatch vs) \<Rightarrow> [length vs] | _ \<Rightarrow> []) evs)"

definition progress_lines :: "event list \<Rightarrow> (int \<times> real \<times> real) list" where
  \<comment> \<open>the progress lines, in order\<close>
  "progress_lines evs =
     concat (map (\<lambda>e. case e of Log (LogProgress tot pct rate) \<Rightarrow> [(tot, pct, rate)]
                            | _ \<Rightarrow> []) evs)"

fun run_totals :: "int \<Rightarrow> event list \<Rightarrow> int list" where
  \<comment> \<open>the row count of the table after every batch, from the count \<open>c\<close> before the trace\<close>
  "run_totals c [] = []"
| "run_totals c (Sql (InsertBatch vs) # es) =
     (c + int (length vs)) # run_totals (c + int (length vs)) es"
| "run_totals c (e # es) = run_totals c es"

text \<open>
  \<open>rates_from_start now n j evs\<close>: every progress line of \<open>evs\<close> stands where \<open>n\<close> plus the
  rows of the batches before it is a multiple of 100,000, reports that number, and its
  rate is that number divided by the time from reading 0 of the clock to the reading
  taken for the line (0 when no time has passed); \<open>j\<close> is the index of the next reading.
\<close>

fun rates_from_start :: "(nat \<Rightarrow> real) \<Rightarrow> int \<Rightarrow> nat \<Rightarrow> event list \<Rightarrow> bool" where
  "rates_from_start now n j [] = True"
| "rates_from_start now n j (Sql (InsertBatch vs) # es) =
     rates_from_start now (n + int (length vs)) j es"
| "rates_from_start now n j (Log (LogProgress tot pct rate) # es) =
     (tot = n \<and> n mod 100000 = 0
      \<and> rate = (if now j - now 0 > 0 then real_of_int n / (now j - now 0) else 0)
      \<and> rates_from_start now n (Suc j) es)"
| "rates_from_start now n j (e # es) = rates_from_start now n j es"

section \<open>fill\_data.py: the seeder's main\<close>

text \<open>
  What \<^verbatim>\<open>main\<close> can touch: the console, the log files it opens, the connections it
  opens, and the tables of the database by name.
\<close>

record world =
  console :: "int list"   \<comment> \<open>the validation messages printed, each with the value refused\<close>
  log_files :: nat
  connections :: nat
  db :: "string \<Rightarrow> table option"

definition tables_config :: "(int \<times> string \<times> nat \<times> nat) list" where
  "tables_config =
     [(1, ''table1'', 1, 100),
      (2, ''table2'', 1, 100),
      (3, ''table3'', 500, 1000),
      (4, ''table4'', 9000, 10000),
      (5, ''table5'', 500, 1000),
      (6, ''table6'', 9000, 10000),
      (7, ''table7'', 500, 1000)]"

definition create_tables :: "(string \<Rightarrow> table option) \<Rightarrow> (string \<Rightarrow> table option)" where
  \<comment> \<open>seven times \<^verbatim>\<open>CREATE TABLE IF NOT EXISTS\<close>\<close>
  "create_tables d =
     fold (\<lambda>name d. case d name of
                       None \<Rightarrow> d(name \<mapsto> \<lparr>rows = [], next_id = 1\<rparr>)
                     | Some t \<Rightarrow> d)
       [''table1'', ''table2'', ''table3'', ''table4'', ''table5'', ''table6'', ''table7''] d"

text \<open>
  The loop over \<^verbatim>\<open>tables_config\<close>. \<open>gen n\<close> and \<open>now n\<close> are the random strings and the
  clock readings of the call for table \<open>n\<close>. A table that does not exist makes the engine
  raise; the exception ends the run, what was committed stays.
\<close>

fun fill_tables ::
  "(int \<Rightarrow> nat \<Rightarrow> string) \<Rightarrow> (int \<Rightarrow> nat \<Rightarrow> real) \<Rightarrow> int \<Rightarrow> bool
     \<Rightarrow> (int \<times> string \<times> nat \<times> nat) list \<Rightarrow> (string \<Rightarrow> table option)
     \<Rightarrow> (string \<Rightarrow> table option) option" where
  "fill_tables gen now start_from skip_existing [] d = Some d"
| "fill_tables gen now start_from skip_existing ((table_num, table_name, min_length, max_length) # cfgs) d =
     (if table_num < start_from then fill_tables gen now start_from skip_existing cfgs d
      else case d table_name of
             None \<Rightarrow> Some d
           | Some t \<Rightarrow>
              (case fill_table (gen table_num) (now table_num) BATCH_SIZE skip_existing t of
                 None \<Rightarrow> None
               | Some r \<Rightarrow>
                   fill_tables gen now start_from skip_existing cfgs
                     (d(table_name \<mapsto> table_after r))))"

text \<open>
  \<^verbatim>\<open>main\<close> with \<^verbatim>\<open>--start-from\<close> parsed to the integer \<open>start_from\<close>; \<open>reachable\<close> says
  whether \<^verbatim>\<open>psycopg2.connect\<close> succeeds.
\<close>

definition main ::
  "(int \<Rightarrow> nat \<Rightarrow> string) \<Rightarrow> (int \<Rightarrow> nat \<Rightarrow> real) \<Rightarrow> bool \<Rightarrow> int \<Rightarrow> bool \<Rightarrow> world
     \<Rightarrow> world option" where
  "main gen now reachable start_from skip_existing w =
     (if start_from < 1 \<or> start_from > 7 then
        Some (w\<lparr>console := console w @ [start_from]\<rparr>)
      else
        let w1 = w\<lparr>log_files := log_files w + 1\<rparr>
        in if \<not> reachable then Some w1
           else
             case fill_tables gen now start_from skip_existing tables_config
                    (create_tables (db w1)) of
               None \<Rightarrow> None
             | Some d \<Rightarrow> Some (w1\<lparr>connections := connections w1 + 1, db := d\<rparr>))"

section \<open>Reference notions and sample inputs\<close>

text \<open>
  The median of a non-empty list: the middle element of the sorted list when the length
  is odd, the arithmetic mean of the two middle elements when it is even.
\<close>

definition standard_median :: "real list \<Rightarrow> real" where
  "standard_median xs =
     (let d = sort xs; n = length d
      in if odd n then d ! (n div 2) else (d ! (n div 2 - 1) + d ! (n div 2)) / 2)"

text \<open>
  The nearest-rank percentile: the sorted element at index \<open>\<lfloor>n p\<rfloor>\<close>, the index
  clamped to \<open>n - 1\<close>.
\<close>

definition nearest_rank :: "real \<Rightarrow> real list \<Rightarrow> real" where
  "nearest_rank p xs =
     sort xs ! min (nat \<lfloor>real (length xs) * p\<rfloor>) (length xs - 1)"

text \<open>
  The position, among the first five units, of the first one in which the value is below
  1024; 5 (the last unit) when there is none.
\<close>

definition unit_index :: "real \<Rightarrow> nat" where
  "unit_index b = length (takeWhile (\<lambda>k. 1024 \<le> b / 1024 ^ k) [0..<5])"

text \<open>
  \<open>grows now bs st st'\<close>: the loop state \<open>st'\<close> continues \<open>st\<close>. The events are extended,
  with no truncation and with batches of at most \<open>bs\<close> rows whose sizes add up to the
  advance of the counter; the progress lines of the extension report, in order, the
  table's row counts after a batch that are multiples of 100,000, each where it arises
  and with the counter over the elapsed time as rate; the rows are extended by rows
  whose ids continue the sequence.
\<close>

definition grows :: "(nat \<Rightarrow> real) \<Rightarrow> int \<Rightarrow> fill_state \<Rightarrow> fill_state \<Rightarrow> bool" where
  "grows now bs st st' \<longleftrightarrow>
     (\<exists>new added.
        events st' = events st @ new
      \<and> Sql TruncateRestart \<notin> set new
      \<and> (\<forall>n \<in> set (batch_sizes new). int n \<le> bs)
      \<and> int (sum_list (batch_sizes new)) = total_inserted st' - total_inserted st
      \<and> map fst (progress_lines new)
          = filter (\<lambda>c. c mod 100000 = 0) (run_totals (total_inserted st) new)
      \<and> rates_from_start now (total_inserted st) (clock_reads st) new
      \<and> clock_reads st' = clock_reads st + length (progress_lines new)
      \<and> rows (tab st') = rows (tab st) @ added
      \<and> map fst added = map (\<lambda>j. next_id (tab st) + int j) [0..<sum_list (batch_sizes new)]
      \<and> next_id (tab st') = next_id (tab st) + int (sum_list (batch_sizes new)))"

definition table_of_size :: "nat \<Rightarrow> table" where
  "table_of_size n = \<lparr>rows = map (\<lambda>i. (int i + 1, [])) [0..<n], next_id = int n + 1\<rparr>"

definition seconds :: "nat \<Rightarrow> real" where
  "seconds j = real j"

text \<open>The sizes of the batches a run has sent and the progress lines it has logged.\<close>

definition run_summary :: "fill_result \<Rightarrow> nat list \<times> (int \<times> real \<times> real) list" where
  "run_summary r = (batch_sizes (trace r), progress_lines (trace r))"

definition idle_world :: world where
  "idle_world = \<lparr>console = [], log_files = 0, connections = 0, db = (\<lambda>name. None)\<rparr>"

definition table_gen :: "int \<Rightarrow> nat \<Rightarrow> string" where
  "table_gen n i = []"

definition table_clock :: "int \<Rightarrow> nat \<Rightarrow> real" where
  "table_clock n j = real j"

definition empty_table :: table where
  "empty_table = \<lparr>rows = [], next_id = 1\<rparr>"

definition two_rows :: table where
  "two_rows = \<lparr>rows = [(1, ''a''), (2, ''b'')], next_id = 3\<rparr>"

definition one_second :: "nat \<Rightarrow> real" where
  "one_second i = 1"

definition ramp :: "nat \<Rightarrow> real" where
  "ramp i = real i + 1"

definition by_id :: "int \<Rightarrow> real" where
  "by_id i = real_of_int i"

definition no_text :: "nat \<Rightarrow> string" where
  "no_text i = []"

definition first_id :: "nat \<Rightarrow> int" where
  "first_id i = 1"

definition example_env :: bench_env where
  "example_env = \<lparr>ins_gen = no_text, ins_dur = one_second, sel_dur = one_second,
     upd_pick = first_id, upd_gen = no_text, upd_dur = one_second,
     del_rnd = by_id, del_dur = one_second\<rparr>"

section \<open>Statistics of a non-empty sample list\<close>

lemma and_then_Inr [simp]: "and_then (Inr x) f = f x"
  by (simp add: and_then_def)

lemma and_then_Inl [simp]: "and_then (Inl e) f = Inl e"
  by (simp add: and_then_def)

lemma upt2: "[0..<2] = [0, 1]"
  by (simp add: upt_rec)

lemma upt3: "[0..<3] = [0, 1, 2]"
  by (simp add: upt_rec)

lemma upt5: "[0..<5] = [0, 1, 2, 3, 4]"
  by (simp add: upt_rec)

lemma percentile_index_lt:
  assumes "0 < n" "0 \<le> p" "p < 1"
  shows "nat \<lfloor>real n * p\<rfloor> < n"
proof -
  have "real n * p < real n" using assms by simp
  then have "\<lfloor>real n * p\<rfloor> < int n" by (simp add: floor_less_iff)
  then show ?thesis using assms by linarith
qed

lemma extended_nonempty:
  assumes "ts \<noteq> []"
  shows "\<exists>e. calculate_extended_stats ts = Inr (Some e)
           \<and> p95_time e = nearest_rank 0.95 ts \<and> p99_time e = nearest_rank 0.99 ts"
proof -
  have n: "0 < length ts" using assms by simp
  have i95: "nat \<lfloor>real (length ts) * 0.95\<rfloor> < length ts"
    using percentile_index_lt [OF n, of "0.95"] by simp
  have i99: "nat \<lfloor>real (length ts) * 0.99\<rfloor> < length ts"
    using percentile_index_lt [OF n, of "0.99"] by simp
  have m: "mean ts = Inr (sum_list ts / real (length ts))"
    using assms by (simp add: mean_def)
  have "\<exists>sd. (if length ts > 1 then stdev ts else Inr 0) = Inr sd"
    by (simp add: stdev_def Let_def)
  then obtain sd where sd: "(if length ts > 1 then stdev ts else Inr 0) = Inr sd" ..
  have m95: "min (nat \<lfloor>real (length ts) * 0.95\<rfloor>) (length ts - 1)
               = nat \<lfloor>real (length ts) * 0.95\<rfloor>"
    using i95 by linarith
  have m99: "min (nat \<lfloor>real (length ts) * 0.99\<rfloor>) (length ts - 1)
               = nat \<lfloor>real (length ts) * 0.99\<rfloor>"
    using i99 by linarith
  show ?thesis
    unfolding calculate_extended_stats_def nearest_rank_def m95 m99
    using assms i95 i99 by (simp add: Let_def sd m del: One_nat_def)
qed

lemma median_nonempty:
  assumes "ts \<noteq> []"
  shows "median ts = Inr (standard_median ts)"
proof -
  have "length (sort ts) \<noteq> 0" using assms by simp
  then show ?thesis
    unfolding median_def standard_median_def Let_def
    by (simp add: odd_iff_mod_2_eq_one del: length_sort)
qed

lemma base_stats_nonempty:
  assumes "ts \<noteq> []"
  shows "\<exists>s e. base_stats c ts = Inr s
           \<and> total_time s = sum_list ts
           \<and> median_time s = standard_median ts
           \<and> ops_per_sec s = (if sum_list ts > 0 then real c / sum_list ts else 0)
           \<and> extended s = Some e
           \<and> p95_time e = nearest_rank 0.95 ts \<and> p99_time e = nearest_rank 0.99 ts"
proof -
  obtain e where e: "calculate_extended_stats ts = Inr (Some e)"
      "p95_time e = nearest_rank 0.95 ts" "p99_time e = nearest_rank 0.99 ts"
    using extended_nonempty [OF assms] by blast
  obtain x ys where ts: "ts = x # ys" using assms by (cases ts) auto
  have mn: "min_of ts = Inr (fold min ys x)" and mx: "max_of ts = Inr (fold max ys x)"
    by (simp_all add: ts min_of_def max_of_def)
  have m: "mean ts = Inr (sum_list ts / real (length ts))"
    using assms by (simp add: mean_def)
  show ?thesis
    unfolding base_stats_def m mn mx median_nonempty [OF assms] e(1)
    using e(2,3) by simp
qed

lemma median_time_base_stats:
  "ts \<noteq> [] \<Longrightarrow> map_sum id median_time (base_stats c ts) = Inr (standard_median ts)"
  using base_stats_nonempty [of ts c] by auto

section \<open>The benchmark loops and their sample lists\<close>

lemma test_insert_eq:
  "test_insert gen dur t c =
     (base_stats c (fst (insert_loop gen dur t c)), snd (insert_loop gen dur t c))"
  by (simp add: test_insert_def case_prod_unfold Let_def)

lemma test_update_eq:
  "test_update_by_id pick gen dur t m c =
     (and_then (fst (update_loop pick gen dur t m c)) (base_stats c),
      snd (update_loop pick gen dur t m c))"
  by (simp add: test_update_by_id_def case_prod_unfold Let_def)

lemma test_delete_eq:
  "test_delete_by_id rnd dur t m c =
     (base_stats c (fst (delete_loop rnd dur t c)), snd (delete_loop rnd dur t c))"
  by (simp add: test_delete_by_id_def case_prod_unfold Let_def)

lemma length_ids_to_delete [simp]:
  "length (ids_to_delete rnd t c) = min (length (rows t)) c"
  by (simp add: ids_to_delete_def)

text \<open>
  C1. The operations per second of a loop are the number of samples in its list divided
  by their sum. The DELETE loop divides its argument \<^verbatim>\<open>count\<close> instead: on a table of
  two rows and \<^verbatim>\<open>count = 3\<close> the loop takes two samples of one second each, and the
  figure reported is \<open>3 / 2\<close>, not \<open>2 / 2\<close>.
\<close>

theorem test_delete_ops_per_sec_uses_count:
  "fst (delete_loop by_id one_second two_rows 3) = [1, 1]
   \<and> map_sum id ops_per_sec (fst (test_delete_by_id by_id one_second two_rows 2 3)) = Inr (3 / 2)"
proof -
  have ids: "ids_to_delete by_id two_rows 3 = [1, 2]"
    by (simp add: ids_to_delete_def two_rows_def by_id_def)
  have loop: "fst (delete_loop by_id one_second two_rows 3) = [1, 1]"
    by (simp add: delete_loop_def ids Let_def upt2 one_second_def)
  obtain s where s: "base_stats 3 [1, 1] = Inr s"
      "ops_per_sec s = (if sum_list [1, 1 :: real] > 0 then real 3 / sum_list [1, 1] else 0)"
    using base_stats_nonempty [of "[1, 1]" 3] by blast
  have "fst (test_delete_by_id by_id one_second two_rows 2 3) = base_stats 3 [1, 1]"
    using loop by (simp add: test_delete_eq)
  then show ?thesis using loop s by simp
qed

theorem median_even_counterexample:
  "fst (insert_loop no_text ramp two_rows 2) = [1, 2]
   \<and> map_sum id median_time (fst (test_insert no_text ramp two_rows 2)) = Inr (3 / 2)
   \<and> (3 / 2 :: real) \<notin> set [1, 2]"
proof -
  have loop: "fst (insert_loop no_text ramp two_rows 2) = [1, 2]"
    by (simp add: insert_loop_def upt2 ramp_def)
  obtain s where s: "base_stats 2 [1, 2] = Inr s" "median_time s = standard_median [1, 2]"
    using base_stats_nonempty [of "[1, 2]" 2] by blast
  have m: "standard_median [1, 2] = 3 / 2"
    by (simp add: standard_median_def)
  have "fst (test_insert no_text ramp two_rows 2) = base_stats 2 [1, 2]"
    using loop by (simp add: test_insert_eq)
  then show ?thesis using loop s m by simp
qed

text \<open>
  C2 (amended). Each benchmark loop that takes at least one sample reports as median the
  middle element of the sorted samples when their number is odd, and the arithmetic mean
  of the two middle elements when it is even. The INSERT, SELECT and UPDATE loops take
  \<open>count\<close> samples, the DELETE loop one for each id selected.
\<close>

theorem median_time_standard:
  assumes "0 < count" and "1 \<le> max_id" and "rows t \<noteq> []"
  shows "map_sum id median_time (fst (test_insert gen dur t count))
           = Inr (standard_median (map dur [0..<count]))
       \<and> map_sum id median_time (test_select_by_id dur max_id count)
           = Inr (standard_median (map dur [0..<count]))
       \<and> map_sum id median_time (fst (test_update_by_id pick gen dur t max_id count))
           = Inr (standard_median (map dur [0..<count]))
       \<and> map_sum id median_time (fst (test_delete_by_id rnd dur t max_id count))
           = Inr (standard_median (map dur [0..<min (length (rows t)) count]))"
proof -
  have ne: "map dur [0..<count] \<noteq> []" using assms(1) by simp
  have ne': "map dur [0..<min (length (rows t)) count] \<noteq> []" using assms(1,3) by simp
  have a: "map_sum id median_time (fst (test_insert gen dur t count))
           = Inr (standard_median (map dur [0..<count]))"
    using median_time_base_stats [OF ne] by (simp add: test_insert_eq insert_loop_def)
  have b: "map_sum id median_time (test_select_by_id dur max_id count)
           = Inr (standard_median (map dur [0..<count]))"
    using median_time_base_stats [OF ne] assms(2)
    by (simp add: test_select_by_id_def select_loop_def)
  have c: "map_sum id median_time (fst (test_update_by_id pick gen dur t max_id count))
           = Inr (standard_median (map dur [0..<count]))"
    using median_time_base_stats [OF ne] assms(2)
    by (simp add: test_update_eq update_loop_def)
  have d: "map_sum id median_time (fst (test_delete_by_id rnd dur t max_id count))
           = Inr (standard_median (map dur [0..<min (length (rows t)) count]))"
    using median_time_base_stats [OF ne']
    by (simp add: test_delete_eq delete_loop_def Let_def)
  show ?thesis using a b c d by simp
qed

theorem median_time_standard_witness:
  "0 < (3::nat) \<and> 1 \<le> (2::int) \<and> rows two_rows \<noteq> []
   \<and> map_sum id median_time (fst (test_insert no_text ramp two_rows 3)) = Inr 2
   \<and> map_sum id median_time (test_select_by_id ramp 2 3) = Inr 2
   \<and> map_sum id median_time (fst (test_update_by_id first_id no_text ramp two_rows 2 3)) = Inr 2
   \<and> map_sum id median_time (fst (test_delete_by_id by_id ramp two_rows 2 3)) = Inr (3 / 2)"
proof -
  have r: "rows two_rows \<noteq> []" by (simp add: two_rows_def)
  have l: "length (rows two_rows) = 2" by (simp add: two_rows_def)
  have m3: "standard_median (map ramp [0..<3]) = 2"
    by (simp add: standard_median_def upt3 ramp_def)
  have m2: "standard_median (map ramp [0..<2]) = 3 / 2"
    by (simp add: standard_median_def upt2 ramp_def)
  show ?thesis
    using median_time_standard [of 3 2 two_rows no_text ramp first_id by_id] r m3 m2
    by (simp add: l)
qed

section \<open>Percentiles\<close>

text \<open>
  C6. For every non-empty sample list of length \<open>n\<close>, \<^verbatim>\<open>calculate_extended_stats\<close> returns
  the four extended keys, and the p95 and p99 among them are the elements of the list
  sorted ascending at index \<open>\<lfloor>0.95 n\<rfloor>\<close> and \<open>\<lfloor>0.99 n\<rfloor>\<close>, clamped to \<open>n - 1\<close>, with no
  interpolation. On the samples \<open>0, 1, ..., 99\<close> the p95 is 95 and the p99 is 99; on 1000
  samples the p99 is the sorted element of index 990.
\<close>

theorem percentiles_nearest_rank:
  assumes "ts \<noteq> []"
  shows "\<exists>e. calculate_extended_stats ts = Inr (Some e)
           \<and> p95_time e = sort ts ! min (nat \<lfloor>real (length ts) * 0.95\<rfloor>) (length ts - 1)
           \<and> p99_time e = sort ts ! min (nat \<lfloor>real (length ts) * 0.99\<rfloor>) (length ts - 1)
           \<and> (ts = map real [0..<100] \<longrightarrow> p95_time e = 95 \<and> p99_time e = 99)
           \<and> (length ts = 1000 \<longrightarrow> p99_time e = sort ts ! 990)"
proof -
  obtain e where e: "calculate_extended_stats ts = Inr (Some e)"
      "p95_time e = nearest_rank 0.95 ts" "p99_time e = nearest_rank 0.99 ts"
    using extended_nonempty [OF assms] by blast
  have s: "sort (map real [0..<100]) = map real [0..<100]"
    by (rule sort_key_id_if_sorted) (simp add: sorted_map sorted_wrt_iff_nth_less)
  have h: "ts = map real [0..<100] \<longrightarrow> p95_time e = 95 \<and> p99_time e = 99"
    using e(2,3) s by (simp add: nearest_rank_def del: upt_rec_numeral)
  have k: "length ts = 1000 \<longrightarrow> p99_time e = sort ts ! 990"
    using e(3) by (simp add: nearest_rank_def)
  show ?thesis using e h k unfolding nearest_rank_def by blast
qed

theorem percentiles_nearest_rank_witness:
  "map real [0..<100] \<noteq> []
   \<and> (\<exists>e. calculate_extended_stats (map real [0..<100]) = Inr (Some e)
          \<and> p95_time e = 95 \<and> p99_time e = 99)"
proof -
  have ne: "map real [0..<100] \<noteq> []" by (simp add: upt_rec)
  show ?thesis
    using percentiles_nearest_rank [OF ne] ne by blast
qed

section \<open>Size formatting\<close>

lemma format_size_1536: "format_size 1536 = ''1.50 '' @ unit_KB"
  apply (simp add: format_size_def format_2f_def round_half_even_def Let_def)
  apply (simp add: decimal.simps)
  done

lemma format_size_0: "format_size 0 = ''0.00 '' @ unit_B"
  apply (simp add: format_size_def format_2f_def round_half_even_def Let_def)
  apply (simp add: decimal.simps)
  done

theorem format_size_latin_counterexample:
  "format_size 1536 \<noteq> ''1.50 KB'' \<and> format_size 0 \<noteq> ''0.00 B''"
  by (simp add: format_size_1536 format_size_0 unit_KB_def unit_B_def)

text \<open>
  C3 (amended). The size formatter renders a byte count with two decimal places in the
  first unit of the sequence (base 1024) in which the value is below 1024, and in the
  sixth unit when there is none; the labels are the Russian abbreviations of the source
  (bytes \<open>unit_B\<close>, then \<open>unit_KB\<close>, \<open>unit_MB\<close>, \<open>unit_GB\<close>, \<open>unit_TB\<close>, \<open>unit_PB\<close>). For 1536
  the result is \<open>1.50\<close>, a space and the label \<open>unit_KB\<close>; for 0 it is \<open>0.00\<close>, a space
  and the label \<open>unit_B\<close>.
\<close>

theorem format_size_units:
  "format_size b = format_2f (b / 1024 ^ unit_index b) @ '' ''
       @ [unit_B, unit_KB, unit_MB, unit_GB, unit_TB, unit_PB] ! unit_index b
   \<and> format_size 1536 = ''1.50 '' @ unit_KB
   \<and> format_size 0 = ''0.00 '' @ unit_B"
proof -
  have "format_size b = format_2f (b / 1024 ^ unit_index b) @ '' ''
       @ [unit_B, unit_KB, unit_MB, unit_GB, unit_TB, unit_PB] ! unit_index b"
    by (simp add: format_size_def unit_index_def upt5)
  then show ?thesis using format_size_1536 format_size_0 by simp
qed

section \<open>A pass over one table\<close>

lemma length_rows_insert_fold:
  "length (rows (fold (\<lambda>i t. insert_row t (gen i)) xs t)) = length (rows t) + length xs"
  by (induction xs arbitrary: t) (simp_all add: insert_row_def)

lemma length_rows_update_fold:
  "length (rows (fold (\<lambda>i t. update_row t (pick i) (gen i)) xs t)) = length (rows t)"
  by (induction xs arbitrary: t) (simp_all add: update_row_def)

lemma printed_nonempty:
  assumes "ts \<noteq> []"
  shows "\<exists>s. printed (base_stats c ts) = Inr s"
proof -
  obtain s e where "base_stats c ts = Inr s" "extended s = Some e"
    using base_stats_nonempty [OF assms, of c] by blast
  then show ?thesis by (simp add: printed_def print_op_stats_def)
qed

lemma printed_Inl: "printed (Inl e) = Inl e"
  by (simp add: printed_def)

lemma get_max_id_empty: "rows t = [] \<Longrightarrow> get_max_id t = 0"
  by (simp add: get_max_id_def select_max_id_def)

lemma get_table_config_valid:
  assumes "1 \<le> n" and "n \<le> 7"
  shows "\<exists>c. get_table_config n = Inr c"
proof -
  from assms have "n = 1 \<or> n = 2 \<or> n = 3 \<or> n = 4 \<or> n = 5 \<or> n = 6 \<or> n = 7" by arith
  then show ?thesis by (auto simp: get_table_config_def)
qed

lemma insert_phase:
  "\<exists>s. printed (fst (test_insert gen dur t OPERATIONS_COUNT)) = Inr s"
  unfolding test_insert_eq insert_loop_def fst_conv
  by (rule printed_nonempty) (simp add: OPERATIONS_COUNT_def)

lemma select_phase:
  "printed (test_select_by_id dur m OPERATIONS_COUNT) = Inl EmptyRange
   \<or> (\<exists>s. printed (test_select_by_id dur m OPERATIONS_COUNT) = Inr s)"
proof (cases "m < 1")
  case True
  then show ?thesis
    by (simp add: test_select_by_id_def select_loop_def OPERATIONS_COUNT_def printed_Inl)
next
  case False
  have "map dur [0..<OPERATIONS_COUNT] \<noteq> []" by (simp add: OPERATIONS_COUNT_def)
  from printed_nonempty [OF this] False show ?thesis
    by (simp add: test_select_by_id_def select_loop_def)
qed

lemma update_phase:
  "printed (fst (test_update_by_id pick gen dur t m OPERATIONS_COUNT)) = Inl EmptyRange
   \<or> (\<exists>s. printed (fst (test_update_by_id pick gen dur t m OPERATIONS_COUNT)) = Inr s)"
proof (cases "m < 1")
  case True
  then show ?thesis
    by (simp add: test_update_eq update_loop_def OPERATIONS_COUNT_def printed_Inl)
next
  case False
  have "map dur [0..<OPERATIONS_COUNT] \<noteq> []" by (simp add: OPERATIONS_COUNT_def)
  from printed_nonempty [OF this] False show ?thesis
    by (simp add: test_update_eq update_loop_def)
qed

lemma update_keeps_count:
  "length (rows (snd (test_update_by_id pick gen dur t m c))) = length (rows t)"
  by (simp add: test_update_eq update_loop_def length_rows_update_fold)

lemma insert_adds_count:
  "length (rows (snd (test_insert gen dur t c))) = length (rows t) + c"
  by (simp add: test_insert_eq insert_loop_def length_rows_insert_fold)

lemma delete_phase:
  assumes "rows t \<noteq> []"
  shows "\<exists>s. printed (fst (test_delete_by_id rnd dur t m OPERATIONS_COUNT)) = Inr s"
  unfolding test_delete_eq delete_loop_def Let_def fst_conv
  by (rule printed_nonempty) (use assms in \<open>simp add: OPERATIONS_COUNT_def\<close>)

text \<open>
  C10. On a table without rows \<^verbatim>\<open>get_max_id\<close> returns 0; when it returns 0 the pass
  over the table returns \<open>None\<close> and leaves the table as it found it, no loop having run;
  and a pass over any of the seven tables never ends in the exception that
  \<^verbatim>\<open>mean\<close>, \<^verbatim>\<open>median\<close>, \<^verbatim>\<open>stdev\<close>, \<^verbatim>\<open>min\<close> or \<^verbatim>\<open>max\<close> raise on too little data: every
  sample list they are applied to is non-empty.
\<close>

theorem empty_table_skipped_no_empty_statistics:
  assumes "1 \<le> table_num" and "table_num \<le> 7"
  shows "(rows t = [] \<longrightarrow> get_max_id t = 0)
       \<and> (get_max_id t = 0 \<longrightarrow> test_table env pg t table_num = (Inr None, t))
       \<and> fst (test_table env pg t table_num) \<noteq> Inl StatisticsError
       \<and> fst (test_table env pg t table_num) \<noteq> Inl EmptySequence"
proof -
  obtain config where config: "get_table_config table_num = Inr config"
    using get_table_config_valid [OF assms] by blast
  have skip: "get_max_id t = 0 \<longrightarrow> test_table env pg t table_num = (Inr None, t)"
    by (simp add: test_table_def config Let_def)
  define t1 where "t1 = snd (test_insert (ins_gen env) (ins_dur env) t OPERATIONS_COUNT)"
  define t3 where "t3 = snd (test_update_by_id (upd_pick env) (upd_gen env) (upd_dur env)
                               t1 (get_max_id t1) OPERATIONS_COUNT)"
  have "length (rows t3) = length (rows t) + OPERATIONS_COUNT"
    by (simp add: t3_def t1_def update_keeps_count insert_adds_count)
  then have ne: "rows t3 \<noteq> []" by (auto simp: OPERATIONS_COUNT_def)
  obtain ins where ins:
    "printed (fst (test_insert (ins_gen env) (ins_dur env) t OPERATIONS_COUNT)) = Inr ins"
    using insert_phase by blast
  obtain del where del:
    "printed (fst (test_delete_by_id (del_rnd env) (del_dur env) t3
                     (get_max_id t1) OPERATIONS_COUNT)) = Inr del"
    using delete_phase [OF ne] by blast
  have "fst (test_table env pg t table_num) \<noteq> Inl StatisticsError
       \<and> fst (test_table env pg t table_num) \<noteq> Inl EmptySequence"
    using select_phase [of "sel_dur env" "get_max_id t1"]
      update_phase [of "upd_pick env" "upd_gen env" "upd_dur env" t1 "get_max_id t1"]
      ins del
    by (auto simp: test_table_def config Let_def case_prod_unfold t1_def t3_def
             split: sum.splits)
  then show ?thesis using skip get_max_id_empty by blast
qed

theorem empty_table_skipped_witness:
  "(1::int) \<le> 1 \<and> (1::int) \<le> 7 \<and> rows empty_table = [] \<and> get_max_id empty_table = 0
   \<and> test_table example_env (0, 0, 0) empty_table 1 = (Inr None, empty_table)"
  using empty_table_skipped_no_empty_statistics [of 1 empty_table example_env "(0, 0, 0)"]
  by (simp add: empty_table_def)

section \<open>The bulk loader\<close>

lemma batch_sizes_append [simp]: "batch_sizes (a @ b) = batch_sizes a @ batch_sizes b"
  by (simp add: batch_sizes_def)

lemma progress_lines_append [simp]: "progress_lines (a @ b) = progress_lines a @ progress_lines b"
  by (simp add: progress_lines_def)

lemma batch_sizes_simps [simp]:
  "batch_sizes [] = []"
  "batch_sizes (Sql (InsertBatch vs) # es) = length vs # batch_sizes es"
  "batch_sizes (Sql CountRows # es) = batch_sizes es"
  "batch_sizes (Sql TruncateRestart # es) = batch_sizes es"
  "batch_sizes (Sql Commit # es) = batch_sizes es"
  "batch_sizes (Log l # es) = batch_sizes es"
  by (simp_all add: batch_sizes_def)

lemma progress_lines_simps [simp]:
  "progress_lines [] = []"
  "progress_lines (Sql q # es) = progress_lines es"
  "progress_lines (Log (LogProgress tot pct rate) # es) = (tot, pct, rate) # progress_lines es"
  "progress_lines (Log (LogSkipped n) # es) = progress_lines es"
  "progress_lines (Log LogStart # es) = progress_lines es"
  "progress_lines (Log (LogResume n) # es) = progress_lines es"
  "progress_lines (Log (LogDone a b) # es) = progress_lines es"
  by (simp_all add: progress_lines_def)

lemma run_totals_append:
  "run_totals c (a @ b) = run_totals c a @ run_totals (c + int (sum_list (batch_sizes a))) b"
  by (induction c a rule: run_totals.induct) (simp_all add: add.assoc)

lemma rates_from_start_append:
  "rates_from_start now n j (a @ b) \<longleftrightarrow>
     rates_from_start now n j a
     \<and> rates_from_start now (n + int (sum_list (batch_sizes a))) (j + length (progress_lines a)) b"
  by (induction now n j a rule: rates_from_start.induct) (simp_all add: add.assoc)

lemma map_upt_add:
  "map f [0..<a + b] = map f [0..<a] @ map (\<lambda>j. f (a + j)) [0..<b]"
proof -
  have "[0..<a + b] = [0..<a] @ map (\<lambda>j. a + j) [0..<b]"
    by (induction b) simp_all
  then show ?thesis by (simp add: comp_def)
qed

lemma rows_fold_insert:
  "rows (fold (\<lambda>v t. insert_row t v) vs t)
     = rows t @ zip (map (\<lambda>j. next_id t + int j) [0..<length vs]) vs
   \<and> next_id (fold (\<lambda>v t. insert_row t v) vs t) = next_id t + int (length vs)"
  by (induction vs rule: rev_induct) (simp_all add: insert_row_def)

lemma grows_refl: "grows now bs st st"
  unfolding grows_def by (rule exI [of _ "[]"], rule exI [of _ "[]"]) simp

lemma grows_trans:
  assumes "grows now bs a b" and "grows now bs b c"
  shows "grows now bs a c"
proof -
  from assms(1) obtain n1 r1 where 1:
    "events b = events a @ n1" "Sql TruncateRestart \<notin> set n1"
    "\<forall>n \<in> set (batch_sizes n1). int n \<le> bs"
    "int (sum_list (batch_sizes n1)) = total_inserted b - total_inserted a"
    "map fst (progress_lines n1)
       = filter (\<lambda>c. c mod 100000 = 0) (run_totals (total_inserted a) n1)"
    "rates_from_start now (total_inserted a) (clock_reads a) n1"
    "clock_reads b = clock_reads a + length (progress_lines n1)"
    "rows (tab b) = rows (tab a) @ r1"
    "map fst r1 = map (\<lambda>j. next_id (tab a) + int j) [0..<sum_list (batch_sizes n1)]"
    "next_id (tab b) = next_id (tab a) + int (sum_list (batch_sizes n1))"
    unfolding grows_def by blast
  from assms(2) obtain n2 r2 where 2:
    "events c = events b @ n2" "Sql TruncateRestart \<notin> set n2"
    "\<forall>n \<in> set (batch_sizes n2). int n \<le> bs"
    "int (sum_list (batch_sizes n2)) = total_inserted c - total_inserted b"
    "map fst (progress_lines n2)
       = filter (\<lambda>c. c mod 100000 = 0) (run_totals (total_inserted b) n2)"
    "rates_from_start now (total_inserted b) (clock_reads b) n2"
    "clock_reads c = clock_reads b + length (progress_lines n2)"
    "rows (tab c) = rows (tab b) @ r2"
    "map fst r2 = map (\<lambda>j. next_id (tab b) + int j) [0..<sum_list (batch_sizes n2)]"
    "next_id (tab c) = next_id (tab b) + int (sum_list (batch_sizes n2))"
    unfolding grows_def by blast
  have tb: "total_inserted b = total_inserted a + int (sum_list (batch_sizes n1))"
    using 1(4) by simp
  have e: "events c = events a @ (n1 @ n2)" using 1(1) 2(1) by simp
  have t: "Sql TruncateRestart \<notin> set (n1 @ n2)" using 1(2) 2(2) by simp
  have s: "\<forall>n \<in> set (batch_sizes (n1 @ n2)). int n \<le> bs" using 1(3) 2(3) by auto
  have u: "int (sum_list (batch_sizes (n1 @ n2))) = total_inserted c - total_inserted a"
    using 1(4) 2(4) by simp
  have p: "map fst (progress_lines (n1 @ n2))
       = filter (\<lambda>c. c mod 100000 = 0) (run_totals (total_inserted a) (n1 @ n2))"
    using 1(5) 2(5) by (simp add: run_totals_append tb)
  have r: "rates_from_start now (total_inserted a) (clock_reads a) (n1 @ n2)"
    using 1(6) 2(6) by (simp add: rates_from_start_append tb 1(7))
  have k: "clock_reads c = clock_reads a + length (progress_lines (n1 @ n2))"
    using 1(7) 2(7) by simp
  have w: "rows (tab c) = rows (tab a) @ (r1 @ r2)" using 1(8) 2(8) by simp
  have i: "map fst (r1 @ r2)
       = map (\<lambda>j. next_id (tab a) + int j) [0..<sum_list (batch_sizes (n1 @ n2))]"
    using 1(9) 2(9) by (simp add: map_upt_add 1(10) add.assoc)
  have x: "next_id (tab c) = next_id (tab a) + int (sum_list (batch_sizes (n1 @ n2)))"
    using 1(10) 2(10) by simp
  show ?thesis
    unfolding grows_def
    using e t s u p r k w i x by blast
qed

lemma fill_step_total:
  "total_inserted (fill_step gen now bs st)
     = total_inserted st + min bs (RECORDS_COUNT - total_inserted st)"
  by (simp add: fill_step_def Let_def)

lemma fill_step_grows:
  assumes "total_inserted st < RECORDS_COUNT" and "0 < bs"
  shows "grows now bs st (fill_step gen now bs st)"
proof -
  define bc where "bc = min bs (RECORDS_COUNT - total_inserted st)"
  define batch where "batch = map (\<lambda>i. gen (generated st + i)) [0..<nat bc]"
  define total' where "total' = total_inserted st + bc"
  define line where "line = Log (LogProgress total'
      (real_of_int (total' * 100) / real_of_int RECORDS_COUNT)
      (if now (clock_reads st) - now 0 > 0
       then real_of_int total' / (now (clock_reads st) - now 0) else 0))"
  define new where "new = [Sql (InsertBatch batch), Sql Commit]
      @ (if total' mod 100000 = 0 then [line] else [])"
  define added where "added = zip (map (\<lambda>j. next_id (tab st) + int j) [0..<length batch]) batch"
  have bc: "0 < bc" "bc \<le> bs" using assms by (simp_all add: bc_def)
  have len: "length batch = nat bc" by (simp add: batch_def)
  have ev: "events (fill_step gen now bs st) = events st @ new"
    by (simp add: fill_step_def Let_def new_def line_def total'_def batch_def bc_def)
  have tot: "total_inserted (fill_step gen now bs st) = total'"
    by (simp add: fill_step_total total'_def bc_def)
  have clk: "clock_reads (fill_step gen now bs st) = clock_reads st + length (progress_lines new)"
    by (simp add: fill_step_def Let_def new_def line_def total'_def batch_def bc_def)
  have tb: "tab (fill_step gen now bs st) = fold (\<lambda>v t. insert_row t v) batch (tab st)"
    by (simp add: fill_step_def Let_def batch_def bc_def)
  have bsz: "batch_sizes new = [nat bc]"
    by (simp add: new_def line_def len)
  have 1: "Sql TruncateRestart \<notin> set new" by (simp add: new_def line_def)
  have 2: "\<forall>n \<in> set (batch_sizes new). int n \<le> bs" using bc by (simp add: bsz)
  have 3: "int (sum_list (batch_sizes new))
             = total_inserted (fill_step gen now bs st) - total_inserted st"
    using bc by (simp add: bsz tot total'_def)
  have 4: "map fst (progress_lines new)
             = filter (\<lambda>c. c mod 100000 = 0) (run_totals (total_inserted st) new)"
    using bc by (simp add: new_def line_def len total'_def)
  have 5: "rates_from_start now (total_inserted st) (clock_reads st) new"
    using bc by (simp add: new_def line_def len total'_def)
  have 6: "rows (tab (fill_step gen now bs st)) = rows (tab st) @ added"
    by (simp add: tb rows_fold_insert added_def)
  have 7: "map fst added
             = map (\<lambda>j. next_id (tab st) + int j) [0..<sum_list (batch_sizes new)]"
    by (simp add: added_def bsz len)
  have 8: "next_id (tab (fill_step gen now bs st))
             = next_id (tab st) + int (sum_list (batch_sizes new))"
    by (simp add: tb rows_fold_insert bsz len)
  show ?thesis
    unfolding grows_def using ev 1 2 3 4 5 clk 6 7 8 by blast
qed

lemma fill_loop_terminates:
  assumes "0 < bs"
  shows "\<exists>st'. fill_loop gen now bs st = Some st' \<and> grows now bs st st'
           \<and> total_inserted st' = max (total_inserted st) RECORDS_COUNT"
proof (induction "nat (RECORDS_COUNT - total_inserted st)" arbitrary: st rule: less_induct)
  case less
  show ?case
  proof (cases "total_inserted st < RECORDS_COUNT")
    case False
    then show ?thesis
      by (subst fill_loop.simps) (simp add: grows_refl)
  next
    case True
    let ?s = "fill_step gen now bs st"
    have up: "total_inserted st < total_inserted ?s" "total_inserted ?s \<le> RECORDS_COUNT"
      using True assms by (simp_all add: fill_step_total)
    then have "nat (RECORDS_COUNT - total_inserted ?s) < nat (RECORDS_COUNT - total_inserted st)"
      using True by linarith
    from less [OF this] obtain st' where st':
      "fill_loop gen now bs ?s = Some st'" "grows now bs ?s st'"
      "total_inserted st' = max (total_inserted ?s) RECORDS_COUNT"
      by blast
    have "fill_loop gen now bs st = Some st'"
      using True st'(1) by (subst fill_loop.simps) simp
    moreover have "grows now bs st st'"
      using grows_trans [OF fill_step_grows [OF True assms] st'(2)] .
    moreover have "total_inserted st' = max (total_inserted st) RECORDS_COUNT"
      using st'(3) up True by simp
    ultimately show ?thesis by blast
  qed
qed

lemma fill_table_run:
  assumes "0 < bs" and "\<not> (skip \<and> RECORDS_COUNT \<le> get_table_count t)"
  shows "\<exists>st e r. fill_table gen now bs skip t
             = Some \<lparr>elapsed_time = e, table_after = tab st,
                     trace = events st @ [Log (LogDone e r)]\<rparr>
           \<and> grows now bs (fill_start skip t) st
           \<and> total_inserted st = max (total_inserted (fill_start skip t)) RECORDS_COUNT
           \<and> fill_loop gen now bs (fill_start skip t) = Some st"
proof -
  obtain st where st: "fill_loop gen now bs (fill_start skip t) = Some st"
      "grows now bs (fill_start skip t) st"
      "total_inserted st = max (total_inserted (fill_start skip t)) RECORDS_COUNT"
    using fill_loop_terminates [OF assms(1)] by blast
  have "\<exists>e r. fill_table gen now bs skip t
             = Some \<lparr>elapsed_time = e, table_after = tab st,
                     trace = events st @ [Log (LogDone e r)]\<rparr>"
    using assms(2) st(1) unfolding fill_table_def Let_def by simp
  then show ?thesis using st by blast
qed

lemma count_table_of_size [simp]: "get_table_count (table_of_size n) = int n"
  by (simp add: table_of_size_def get_table_count_def)

lemma map_upt_upto: "map (\<lambda>j. a + int j) [0..<n] = [a..a + int n - 1]"
proof (induction n)
  case 0
  then show ?case by simp
next
  case (Suc n)
  have "[a..a + int (Suc n) - 1] = [a..(a + int n - 1) + 1]" by (simp add: algebra_simps)
  also have "\<dots> = [a..a + int n - 1] @ [a + int n]"
    by (subst upto_rec2) simp_all
  finally show ?case using Suc by simp
qed

lemma get_table_count_nonneg: "0 \<le> get_table_count t"
  by (simp add: get_table_count_def)

text \<open>
  C5. If the table holds \<open>k\<close> rows with \<open>0 < k < N\<close> (\<open>N\<close> the target \<open>RECORDS_COUNT\<close>)
  when the loader runs, with a positive batch size, then the loader returns, sends no
  truncation, inserts exactly \<open>N - k\<close> new rows in batches of at most the batch size
  each, keeps the rows that were there, and leaves the table with exactly \<open>N\<close> rows.
\<close>

theorem resume_inserts_remaining:
  assumes "0 < get_table_count t" and "get_table_count t < RECORDS_COUNT"
    and "0 < batch_size"
  shows "\<exists>r. fill_table gen now batch_size skip t = Some r
           \<and> Sql TruncateRestart \<notin> set (trace r)
           \<and> (\<forall>n \<in> set (batch_sizes (trace r)). int n \<le> batch_size)
           \<and> int (sum_list (batch_sizes (trace r))) = RECORDS_COUNT - get_table_count t
           \<and> get_table_count (table_after r) = RECORDS_COUNT
           \<and> take (length (rows t)) (rows (table_after r)) = rows t"
proof -
  have ns: "\<not> (skip \<and> RECORDS_COUNT \<le> get_table_count t)" using assms(2) by simp
  obtain st e r0 where run:
    "fill_table gen now batch_size skip t
       = Some \<lparr>elapsed_time = e, table_after = tab st, trace = events st @ [Log (LogDone e r0)]\<rparr>"
    "grows now batch_size (fill_start skip t) st"
    "total_inserted st = max (total_inserted (fill_start skip t)) RECORDS_COUNT"
    using fill_table_run [OF assms(3) ns] by blast
  have s0: "total_inserted (fill_start skip t) = get_table_count t"
      "tab (fill_start skip t) = t"
      "Sql TruncateRestart \<notin> set (events (fill_start skip t))"
      "batch_sizes (events (fill_start skip t)) = []"
    using assms(1) by (simp_all add: fill_start_def Let_def)
  from run(2) obtain new added where g:
    "events st = events (fill_start skip t) @ new"
    "Sql TruncateRestart \<notin> set new"
    "\<forall>n \<in> set (batch_sizes new). int n \<le> batch_size"
    "int (sum_list (batch_sizes new)) = total_inserted st - total_inserted (fill_start skip t)"
    "rows (tab st) = rows (tab (fill_start skip t)) @ added"
    "map fst added = map (\<lambda>j. next_id (tab (fill_start skip t)) + int j)
                       [0..<sum_list (batch_sizes new)]"
    unfolding grows_def by blast
  have tot: "total_inserted st = RECORDS_COUNT" using run(3) s0(1) assms(2) by simp
  have la: "length added = sum_list (batch_sizes new)"
    using arg_cong [OF g(6), of length] by simp
  have 1: "Sql TruncateRestart \<notin> set (events st @ [Log (LogDone e r0)])"
    using g(1,2) s0(3) by simp
  have 2: "\<forall>n \<in> set (batch_sizes (events st @ [Log (LogDone e r0)])). int n \<le> batch_size"
    using g(1,3) s0(4) by simp
  have 3: "int (sum_list (batch_sizes (events st @ [Log (LogDone e r0)])))
             = RECORDS_COUNT - get_table_count t"
    using g(1,4) s0(1,4) tot by simp
  have 4: "get_table_count (tab st) = RECORDS_COUNT"
    using g(4,5) la s0(1,2) tot by (simp add: get_table_count_def)
  have 5: "take (length (rows t)) (rows (tab st)) = rows t"
    using g(5) s0(2) by simp
  show ?thesis using run(1) 1 2 3 4 5 by simp
qed

theorem resume_inserts_remaining_witness:
  "0 < get_table_count (table_of_size 5) \<and> get_table_count (table_of_size 5) < RECORDS_COUNT
   \<and> 0 < BATCH_SIZE
   \<and> (\<exists>r. fill_table no_text seconds BATCH_SIZE False (table_of_size 5) = Some r
          \<and> Sql TruncateRestart \<notin> set (trace r)
          \<and> int (sum_list (batch_sizes (trace r))) = 1999995
          \<and> get_table_count (table_after r) = 2000000)"
proof -
  have h: "0 < get_table_count (table_of_size 5)"
      "get_table_count (table_of_size 5) < RECORDS_COUNT" "0 < BATCH_SIZE"
    by (simp_all add: RECORDS_COUNT_def BATCH_SIZE_def)
  show ?thesis
    using resume_inserts_remaining [OF h, of no_text seconds False] h
    by (auto simp: RECORDS_COUNT_def)
qed

text \<open>
  C7. If the table holds no rows when the loader runs, with a positive batch size, then
  the loader returns, truncates the table and restarts its identity sequence before it
  sends any batch, inserts exactly \<open>N\<close> rows, and leaves the table with the ids
  \<open>1, ..., N\<close> (\<open>N\<close> the target \<open>RECORDS_COUNT\<close>).
\<close>

theorem empty_table_reset_and_filled:
  assumes "rows t = []" and "0 < batch_size"
  shows "\<exists>r. fill_table gen now batch_size skip t = Some r
           \<and> Sql TruncateRestart \<in> set (trace r)
           \<and> batch_sizes (takeWhile (\<lambda>e. e \<noteq> Sql TruncateRestart) (trace r)) = []
           \<and> int (sum_list (batch_sizes (trace r))) = RECORDS_COUNT
           \<and> map fst (rows (table_after r)) = [1..RECORDS_COUNT]"
proof -
  have c0: "get_table_count t = 0" using assms(1) by (simp add: get_table_count_def)
  have ns: "\<not> (skip \<and> RECORDS_COUNT \<le> get_table_count t)"
    by (simp add: c0 RECORDS_COUNT_def)
  obtain st e r0 where run:
    "fill_table gen now batch_size skip t
       = Some \<lparr>elapsed_time = e, table_after = tab st, trace = events st @ [Log (LogDone e r0)]\<rparr>"
    "grows now batch_size (fill_start skip t) st"
    "total_inserted st = max (total_inserted (fill_start skip t)) RECORDS_COUNT"
    using fill_table_run [OF assms(2) ns] by blast
  define pre where "pre = (if skip then [Sql CountRows] else []) @ [Log LogStart, Sql CountRows]"
  have s0: "total_inserted (fill_start skip t) = 0"
      "rows (tab (fill_start skip t)) = []"
      "next_id (tab (fill_start skip t)) = 1"
      "events (fill_start skip t) = pre @ [Sql TruncateRestart, Sql Commit]"
    by (simp_all add: fill_start_def Let_def c0 truncate_restart_def pre_def)
  have pre: "batch_sizes pre = []" "\<forall>x \<in> set pre. x \<noteq> Sql TruncateRestart"
    by (simp_all add: pre_def)
  from run(2) obtain new added where g:
    "events st = events (fill_start skip t) @ new"
    "int (sum_list (batch_sizes new)) = total_inserted st - total_inserted (fill_start skip t)"
    "rows (tab st) = rows (tab (fill_start skip t)) @ added"
    "map fst added = map (\<lambda>j. next_id (tab (fill_start skip t)) + int j)
                       [0..<sum_list (batch_sizes new)]"
    unfolding grows_def by blast
  have tot: "total_inserted st = RECORDS_COUNT" using run(3) s0(1) by (simp add: RECORDS_COUNT_def)
  have ev: "events st @ [Log (LogDone e r0)]
              = pre @ Sql TruncateRestart # (Sql Commit # new @ [Log (LogDone e r0)])"
    using g(1) s0(4) by simp
  have 1: "Sql TruncateRestart \<in> set (events st @ [Log (LogDone e r0)])"
    unfolding ev by simp
  have 2: "takeWhile (\<lambda>e. e \<noteq> Sql TruncateRestart) (events st @ [Log (LogDone e r0)]) = pre"
    unfolding ev using pre(2) by (simp add: takeWhile_append2)
  have 3: "int (sum_list (batch_sizes (events st @ [Log (LogDone e r0)]))) = RECORDS_COUNT"
    unfolding ev using g(2) s0(1) tot pre(1) by simp
  have sm: "int (sum_list (batch_sizes new)) = RECORDS_COUNT" using g(2) s0(1) tot by simp
  have "map fst (rows (tab st)) = [1..1 + int (sum_list (batch_sizes new)) - 1]"
    using g(3,4) s0(2,3) by (simp add: map_upt_upto)
  then have 4: "map fst (rows (tab st)) = [1..RECORDS_COUNT]" using sm by simp
  show ?thesis using run(1) 1 2 3 4 pre(1) by simp
qed

theorem empty_table_reset_and_filled_witness:
  "rows empty_table = [] \<and> 0 < BATCH_SIZE
   \<and> (\<exists>r. fill_table no_text seconds BATCH_SIZE False empty_table = Some r
          \<and> Sql TruncateRestart \<in> set (trace r)
          \<and> int (sum_list (batch_sizes (trace r))) = 2000000
          \<and> map fst (rows (table_after r)) = [1..2000000])"
proof -
  have h: "rows empty_table = []" "0 < BATCH_SIZE"
    by (simp_all add: empty_table_def BATCH_SIZE_def)
  show ?thesis
    using empty_table_reset_and_filled [OF h, of no_text seconds False] h
    by (auto simp: RECORDS_COUNT_def)
qed

text \<open>
  C8. When the skip-if-filled flag is set and the table already holds at least \<open>N\<close>
  rows, the loader sends the count query and nothing else, leaves the table as it is,
  and returns 0.
\<close>

theorem filled_table_skipped:
  assumes "skip_if_exists" and "RECORDS_COUNT \<le> get_table_count t"
  shows "fill_table gen now batch_size skip_if_exists t
           = Some \<lparr>elapsed_time = 0, table_after = t,
                   trace = [Sql CountRows, Log (LogSkipped (get_table_count t))]\<rparr>"
  using assms by (simp add: fill_table_def)

theorem filled_table_skipped_witness:
  "True \<and> RECORDS_COUNT \<le> get_table_count (table_of_size 2000000)
   \<and> fill_table no_text seconds BATCH_SIZE True (table_of_size 2000000)
       = Some \<lparr>elapsed_time = 0, table_after = table_of_size 2000000,
               trace = [Sql CountRows, Log (LogSkipped 2000000)]\<rparr>"
proof -
  have h: "RECORDS_COUNT \<le> get_table_count (table_of_size 2000000)"
    by (simp add: RECORDS_COUNT_def)
  show ?thesis
    using filled_table_skipped [OF TrueI h, of no_text seconds BATCH_SIZE] h by simp
qed

lemma multiples_of_batches:
  "filter (\<lambda>c. c mod 100000 = 0) (map (\<lambda>j. 0 + int (Suc j) * 10000) [0..<200])
     = map (\<lambda>i. 100000 * int i) [1..<21]"
  by code_simp

lemma fill_step_run_totals:
  assumes "total_inserted st < RECORDS_COUNT" and "0 < bs"
  shows "\<exists>new. events (fill_step gen now bs st) = events st @ new
           \<and> run_totals (total_inserted st) new = [total_inserted (fill_step gen now bs st)]
           \<and> int (sum_list (batch_sizes new))
               = total_inserted (fill_step gen now bs st) - total_inserted st"
proof -
  define bc where "bc = min bs (RECORDS_COUNT - total_inserted st)"
  have bc: "0 < bc" using assms by (simp add: bc_def)
  show ?thesis
    using bc unfolding fill_step_def Let_def bc_def [symmetric]
    by (cases "(total_inserted st + bc) mod 100000 = 0") simp_all
qed

lemma upt_shift: "0 < q \<Longrightarrow> map f [0..<q] = f 0 # map (\<lambda>j. f (Suc j)) [0..<q - 1]"
proof -
  assume "0 < q"
  then obtain p where q: "q = Suc p" by (cases q) auto
  have "[0..<Suc p] = 0 # map Suc [0..<p]"
    by (simp add: upt_conv_Cons map_Suc_upt del: upt_Suc)
  then show ?thesis by (simp add: q comp_def del: upt_Suc)
qed

lemma fill_loop_aligned:
  assumes "0 < bs"
  shows "total_inserted st \<le> RECORDS_COUNT \<Longrightarrow> bs dvd (RECORDS_COUNT - total_inserted st) \<Longrightarrow>
         \<exists>st' new. fill_loop gen now bs st = Some st' \<and> events st' = events st @ new
           \<and> run_totals (total_inserted st) new
               = map (\<lambda>j. total_inserted st + int (Suc j) * bs)
                   [0..<nat ((RECORDS_COUNT - total_inserted st) div bs)]"
proof (induction "nat (RECORDS_COUNT - total_inserted st)" arbitrary: st rule: less_induct)
  case less
  show ?case
  proof (cases "total_inserted st < RECORDS_COUNT")
    case False
    then have "total_inserted st = RECORDS_COUNT" using less.prems(1) by simp
    then show ?thesis
      by (subst fill_loop.simps) simp
  next
    case True
    let ?s = "fill_step gen now bs st"
    let ?t = "total_inserted st"
    from less.prems(2) obtain q where q: "RECORDS_COUNT - ?t = bs * q" by (auto simp: dvd_def)
    have qpos: "0 < q" using True q assms by (smt (verit) mult_nonneg_nonpos)
    then have "bs \<le> bs * q" using assms by (simp add: mult_le_cancel_left1)
    then have mn: "min bs (RECORDS_COUNT - ?t) = bs" using q by simp
    have ts: "total_inserted ?s = ?t + bs" by (simp add: fill_step_total mn)
    have rem: "RECORDS_COUNT - total_inserted ?s = bs * (q - 1)"
      using q by (simp add: ts algebra_simps)
    have le: "total_inserted ?s \<le> RECORDS_COUNT"
      using rem qpos assms by (smt (verit) mult_nonneg_nonneg)
    have dv: "bs dvd (RECORDS_COUNT - total_inserted ?s)" using rem by simp
    have "nat (RECORDS_COUNT - total_inserted ?s) < nat (RECORDS_COUNT - ?t)"
      using ts assms True by linarith
    from less.hyps [OF this le dv] obtain st' new' where st':
      "fill_loop gen now bs ?s = Some st'" "events st' = events ?s @ new'"
      "run_totals (total_inserted ?s) new'
         = map (\<lambda>j. total_inserted ?s + int (Suc j) * bs)
             [0..<nat ((RECORDS_COUNT - total_inserted ?s) div bs)]"
      by blast
    obtain new0 where new0: "events ?s = events st @ new0"
        "run_totals ?t new0 = [total_inserted ?s]"
        "int (sum_list (batch_sizes new0)) = total_inserted ?s - ?t"
      using fill_step_run_totals [OF True assms] by blast
    have d1: "(RECORDS_COUNT - ?t) div bs = q" using q assms by simp
    have d2: "(RECORDS_COUNT - total_inserted ?s) div bs = q - 1" using rem assms by simp
    have st3: "run_totals (total_inserted ?s) new'
         = map (\<lambda>j. total_inserted ?s + int (Suc j) * bs) [0..<nat (q - 1)]"
      using st'(3) unfolding d2 .
    have n: "nat q - 1 = nat (q - 1)" by simp
    have nq: "0 < nat q" using qpos by simp
    have a: "fill_loop gen now bs st = Some st'"
      using True st'(1) by (subst fill_loop.simps) simp
    have b: "events st' = events st @ (new0 @ new')" using st'(2) new0(1) by simp
    have c: "run_totals ?t (new0 @ new')
               = map (\<lambda>j. ?t + int (Suc j) * bs) [0..<nat ((RECORDS_COUNT - ?t) div bs)]"
      unfolding d1 upt_shift [OF nq] n
      using new0(2,3) st3 by (simp add: run_totals_append ts algebra_simps)
    show ?thesis using a b c by blast
  qed
qed

lemma fill_start_facts:
  "total_inserted (fill_start skip t) = get_table_count t"
  "clock_reads (fill_start skip t) = 1"
  "progress_lines (events (fill_start skip t)) = []"
  "batch_sizes (events (fill_start skip t)) = []"
  "run_totals c (events (fill_start skip t)) = []"
  "rates_from_start now n j (events (fill_start skip t))"
  using get_table_count_nonneg [of t] by (simp_all add: fill_start_def Let_def)

text \<open>
  A fill that starts from a table without rows, with a positive batch size: the loader
  returns; each progress line stands where the rows inserted by this run reach a
  multiple of 100,000, reports that number, and gives as rate that number divided by
  the time elapsed since the loader started (0 when none has elapsed). With the default
  batch size of 10,000 the lines come after 100,000, 200,000, ..., 2,000,000 rows.
\<close>

lemma fresh_fill_progress:
  assumes "0 < batch_size" and "rows t = []"
  shows "\<exists>r. fill_table gen now batch_size skip t = Some r
           \<and> rates_from_start now 0 1 (trace r)
           \<and> (batch_size = BATCH_SIZE \<longrightarrow>
                map fst (progress_lines (trace r)) = map (\<lambda>i. 100000 * int i) [1..<21])"
proof -
  have k0: "get_table_count t = 0" using assms(2) by (simp add: get_table_count_def)
  have ns: "\<not> (skip \<and> RECORDS_COUNT \<le> get_table_count t)"
    by (simp add: k0 RECORDS_COUNT_def)
  let ?s0 = "fill_start skip t"
  obtain st e r0 where run:
    "fill_table gen now batch_size skip t
       = Some \<lparr>elapsed_time = e, table_after = tab st, trace = events st @ [Log (LogDone e r0)]\<rparr>"
    "grows now batch_size ?s0 st"
    "fill_loop gen now batch_size ?s0 = Some st"
    using fill_table_run [OF assms(1) ns] by blast
  from run(2) obtain new where g:
    "events st = events ?s0 @ new"
    "map fst (progress_lines new)
       = filter (\<lambda>c. c mod 100000 = 0) (run_totals (total_inserted ?s0) new)"
    "rates_from_start now (total_inserted ?s0) (clock_reads ?s0) new"
    unfolding grows_def by blast
  let ?tr = "events st @ [Log (LogDone e r0)]"
  have 1: "map fst (progress_lines ?tr)
             = filter (\<lambda>c. c mod 100000 = 0) (run_totals (get_table_count t) ?tr)"
    using g(2) by (simp add: g(1) run_totals_append fill_start_facts)
  have 2: "rates_from_start now 0 1 ?tr"
    using g(3) k0 by (simp add: g(1) rates_from_start_append fill_start_facts)
  have 3: "map fst (progress_lines ?tr) = map (\<lambda>i. 100000 * int i) [1..<21]"
    if "batch_size = BATCH_SIZE"
  proof -
    have c0: "total_inserted ?s0 = 0" by (simp add: fill_start_facts k0)
    have le: "total_inserted ?s0 \<le> RECORDS_COUNT" by (simp add: c0 RECORDS_COUNT_def)
    have dv: "batch_size dvd (RECORDS_COUNT - total_inserted ?s0)"
      by (simp add: c0 that RECORDS_COUNT_def BATCH_SIZE_def)
    obtain st' new' where a: "fill_loop gen now batch_size ?s0 = Some st'"
        "events st' = events ?s0 @ new'"
        "run_totals (total_inserted ?s0) new'
           = map (\<lambda>j. total_inserted ?s0 + int (Suc j) * batch_size)
               [0..<nat ((RECORDS_COUNT - total_inserted ?s0) div batch_size)]"
      using fill_loop_aligned [OF assms(1) le dv] by blast
    have "new' = new" using a(1,2) run(3) g(1) by simp
    then have "run_totals (get_table_count t) new
                 = map (\<lambda>j. 0 + int (Suc j) * 10000) [0..<200]"
      using a(3) c0 by (simp add: fill_start_facts that RECORDS_COUNT_def BATCH_SIZE_def)
    then show ?thesis
      using 1 multiples_of_batches
      by (simp add: g(1) run_totals_append fill_start_facts)
  qed
  show ?thesis using run(1) 2 3 by simp
qed

text \<open>
  C4. A progress line comes after each 100,000 rows inserted by this run, and its rate
  counts the rows inserted since the loader started over the time elapsed since then.
  A resumed fill does not do so. From 1,990,000 rows, the clock advancing one second
  per reading, the run sends a single batch of 10,000 rows and logs a progress line
  after it (the counter starts at the rows already there and has reached 2,000,000);
  one second has elapsed, and the rate logged is 2,000,000 rows per second where the
  rows inserted by this run give 10,000.
\<close>

theorem resumed_fill_rate_counts_existing_rows:
  "map_option run_summary
     (fill_table no_text seconds BATCH_SIZE False (table_of_size 1990000))
   = Some ([10000], [(2000000, 100, 2000000)])
   \<and> seconds 1 - seconds 0 = 1"
  by (simp add: run_summary_def fill_table_def fill_start_def fill_loop.simps fill_step_def
        Let_def RECORDS_COUNT_def BATCH_SIZE_def seconds_def)

section \<open>The seeder's main\<close>

text \<open>
  C9. For every integer value of \<^verbatim>\<open>--start-from\<close> outside \<open>[1, 7]\<close>, \<^verbatim>\<open>main\<close> prints the
  validation message and returns: it opens no log file and no database connection, and
  no table is created or changed.
\<close>

theorem start_from_out_of_range:
  assumes "start_from < 1 \<or> 7 < start_from"
  shows "\<exists>w'. main gen now reachable start_from skip_existing w = Some w'
           \<and> console w' = console w @ [start_from]
           \<and> log_files w' = log_files w
           \<and> connections w' = connections w
           \<and> db w' = db w"
  using assms by (auto simp: main_def)

theorem start_from_out_of_range_witness:
  "((0::int) < 1 \<or> 7 < (0::int)) \<and> ((8::int) < 1 \<or> 7 < (8::int))
   \<and> main table_gen table_clock True 0 False idle_world
       = Some (idle_world\<lparr>console := [0]\<rparr>)
   \<and> main table_gen table_clock True 8 False idle_world
       = Some (idle_world\<lparr>console := [8]\<rparr>)"
proof -
  have a: "(0::int) < 1 \<or> 7 < (0::int)" and b: "(8::int) < 1 \<or> 7 < (8::int)" by simp_all
  show ?thesis
    using start_from_out_of_range [OF a, of table_gen table_clock True False idle_world]
      start_from_out_of_range [OF b, of table_gen table_clock True False idle_world]
    by (auto simp: idle_world_def)
qed

end
